theory Spec2Isabelle
  imports Complex_Main "HOL-Library.Product_Lexorder"
begin

section \<open>Values handed to the generator\<close>

text \<open>
  The work packages are the decoded JSON elements returned by the API client
  (\<^verbatim>\<open>response.json()\<close>), so every field is a dynamically typed value. A dictionary is
  an association list read with \<open>map_of\<close>. JSON numbers are integers or, for
  non-integral numbers, rationals: float arithmetic is carried out exactly, rounding and
  the float range are outside the model.
\<close>

datatype json =
    JNull
  | JBool bool
  | JInt int
  | JFloat rat
  | JStr string
  | JArr "json list"
  | JObj "(string \<times> json) list"

type_synonym pydict = "(string \<times> json) list"

text \<open>The exceptions the modelled code can raise; \<open>Inl\<close> of a result is a raised exception.\<close>

datatype error = TypeError | AttributeError | ValueError

definition bind_r :: "error + 'a \<Rightarrow> ('a \<Rightarrow> error + 'b) \<Rightarrow> error + 'b" where
  "bind_r m f = (case m of Inl e \<Rightarrow> Inl e | Inr x \<Rightarrow> f x)"

text \<open>Python truth value of a decoded JSON value (\<^verbatim>\<open>if not x\<close>, \<^verbatim>\<open>x or y\<close>).\<close>

fun truthy :: "json \<Rightarrow> bool" where
  "truthy JNull = False"
| "truthy (JBool b) = b"
| "truthy (JInt n) = (n \<noteq> 0)"
| "truthy (JFloat r) = (r \<noteq> 0)"
| "truthy (JStr s) = (s \<noteq> [])"
| "truthy (JArr xs) = (xs \<noteq> [])"
| "truthy (JObj kvs) = (kvs \<noteq> [])"

definition py_or :: "json \<Rightarrow> json \<Rightarrow> json" where
  "py_or a b = (if truthy a then a else b)"

text \<open>\<^verbatim>\<open>d.get(key, default)\<close> on a dictionary, and on an arbitrary value, where only a
  dictionary has the method.\<close>

definition dict_get :: "pydict \<Rightarrow> string \<Rightarrow> json \<Rightarrow> json" where
  "dict_get d k dflt = (case map_of d k of None \<Rightarrow> dflt | Some v \<Rightarrow> v)"

definition get_attr :: "json \<Rightarrow> string \<Rightarrow> json \<Rightarrow> error + json" where
  "get_attr v k dflt = (case v of JObj d \<Rightarrow> Inr (dict_get d k dflt) | _ \<Rightarrow> Inl AttributeError)"

section \<open>Timestamps\<close>

text \<open>
  A \<^verbatim>\<open>datetime\<close> is its wall-clock reading in microseconds since 0001-01-01T00:00:00,
  either naive or aware with a UTC offset (in microseconds). Two aware values are
  compared and subtracted through their UTC instants, two naive ones through their
  readings, and mixing the two kinds raises \<^verbatim>\<open>TypeError\<close>. The calendar range of the
  library type (years 1 to 9999) is outside the model.
\<close>

datatype datetime = Naive int | Aware int int

definition day_us :: int where
  "day_us = 86400000000"

fun dt_lt :: "datetime \<Rightarrow> datetime \<Rightarrow> error + bool" where
  "dt_lt (Naive a) (Naive b) = Inr (a < b)"
| "dt_lt (Aware a x) (Aware b y) = Inr (a - x < b - y)"
| "dt_lt _ _ = Inl TypeError"

fun dt_le :: "datetime \<Rightarrow> datetime \<Rightarrow> error + bool" where
  "dt_le (Naive a) (Naive b) = Inr (a \<le> b)"
| "dt_le (Aware a x) (Aware b y) = Inr (a - x \<le> b - y)"
| "dt_le _ _ = Inl TypeError"

text \<open>\<^verbatim>\<open>a - b\<close> as a \<^verbatim>\<open>timedelta\<close> in microseconds, and its \<^verbatim>\<open>.days\<close> (rounded down).\<close>

fun dt_sub :: "datetime \<Rightarrow> datetime \<Rightarrow> error + int" where
  "dt_sub (Naive a) (Naive b) = Inr (a - b)"
| "dt_sub (Aware a x) (Aware b y) = Inr ((a - x) - (b - y))"
| "dt_sub _ _ = Inl TypeError"

definition td_days :: "int \<Rightarrow> int" where
  "td_days us = us div day_us"

text \<open>\<^verbatim>\<open>d + timedelta(days=n)\<close>: the reading moves, the offset stays.\<close>

fun add_days :: "datetime \<Rightarrow> int \<Rightarrow> datetime" where
  "add_days (Naive a) n = Naive (a + n * day_us)"
| "add_days (Aware a x) n = Aware (a + n * day_us) x"

section \<open>Date parsing\<close>

text \<open>\<^verbatim>\<open>date_str.replace('Z', '+00:00')\<close>: every occurrence of the letter is replaced;
  a value that is not a string has no such method.\<close>

definition replace_Z :: "string \<Rightarrow> string" where
  "replace_Z s = concat (map (\<lambda>c. if c = CHR ''Z'' then ''+00:00'' else [c]) s)"

definition str_replace_Z :: "json \<Rightarrow> error + string" where
  "str_replace_Z v = (case v of JStr s \<Rightarrow> Inr (replace_Z s) | _ \<Rightarrow> Inl AttributeError)"

text \<open>
  \<^verbatim>\<open>datetime.fromisoformat\<close> belongs to the standard library and is a parameter
  \<open>fromiso\<close> of the model: \<open>fromiso s = None\<close> stands for its \<^verbatim>\<open>ValueError\<close>. The body of
  the \<^verbatim>\<open>try\<close> is \<open>parse_date_try\<close>; the handler of \<open>parse_date\<close> turns
  \<^verbatim>\<open>ValueError\<close> and \<^verbatim>\<open>AttributeError\<close> into \<^verbatim>\<open>None\<close> and lets anything else
  through.
\<close>

definition parse_date_try :: "(string \<Rightarrow> datetime option) \<Rightarrow> json \<Rightarrow> error + datetime option" where
  "parse_date_try fromiso date_str =
     bind_r (str_replace_Z date_str)
       (\<lambda>s. case fromiso s of None \<Rightarrow> Inl ValueError | Some d \<Rightarrow> Inr (Some d))"

definition parse_date :: "(string \<Rightarrow> datetime option) \<Rightarrow> json \<Rightarrow> error + datetime option" where
  "parse_date fromiso date_str =
     (if \<not> truthy date_str then Inr None
      else case parse_date_try fromiso date_str of
             Inl e \<Rightarrow> (if e = ValueError \<or> e = AttributeError then Inr None else Inl e)
           | Inr r \<Rightarrow> Inr r)"

section \<open>Status colour\<close>

definition Done :: string where "Done = ''#27ae60''"
definition Future :: string where "Future = ''#9b59b6''"
definition OnTrack :: string where "OnTrack = ''#3498db''"
definition Overdue :: string where "Overdue = ''#e74c3c''"
definition Unknown :: string where "Unknown = ''#95a5a6''"

text \<open>\<^verbatim>\<open>status in closed_statuses\<close> on a set of strings: the status is hashed first, which
  raises \<^verbatim>\<open>TypeError\<close> for a list or a dictionary.\<close>

definition in_statuses :: "json \<Rightarrow> string set \<Rightarrow> error + bool" where
  "in_statuses status cs =
     (case status of
        JStr s \<Rightarrow> Inr (s \<in> cs)
      | JArr _ \<Rightarrow> Inl TypeError
      | JObj _ \<Rightarrow> Inl TypeError
      | _ \<Rightarrow> Inr False)"

definition default_closed_statuses :: "string set" where
  "default_closed_statuses = {''Closed'', ''closed'', ''CLOSED''}"

text \<open>The three date tests of \<^verbatim>\<open>_get_status_color\<close>; \<^verbatim>\<open>None\<close> is false and a
  \<^verbatim>\<open>datetime\<close> is always true, so each comparison runs only on known values.\<close>

definition is_future :: "datetime option \<Rightarrow> datetime option \<Rightarrow> error + bool" where
  "is_future start now =
     (case (start, now) of (Some s, Some n) \<Rightarrow> dt_lt n s | _ \<Rightarrow> Inr False)"

definition is_on_track :: "datetime option \<Rightarrow> datetime option \<Rightarrow> datetime option \<Rightarrow> error + bool" where
  "is_on_track start finish now =
     (case (start, finish, now) of
        (Some s, Some f, Some n) \<Rightarrow> bind_r (dt_le s n) (\<lambda>b. if b then dt_le n f else Inr False)
      | _ \<Rightarrow> Inr False)"

definition is_overdue :: "datetime option \<Rightarrow> datetime option \<Rightarrow> error + bool" where
  "is_overdue finish now =
     (case (finish, now) of (Some f, Some n) \<Rightarrow> dt_lt f n | _ \<Rightarrow> Inr False)"

definition get_status_color ::
  "json \<Rightarrow> datetime option \<Rightarrow> datetime option \<Rightarrow> datetime option \<Rightarrow> string set option \<Rightarrow> error + string" where
  "get_status_color status start finish now closed_statuses =
     (let cs = (case closed_statuses of None \<Rightarrow> default_closed_statuses | Some c \<Rightarrow> c) in
      bind_r (in_statuses status cs) (\<lambda>closed.
        if closed then Inr Done
        else bind_r (is_future start now) (\<lambda>fut.
          if fut then Inr Future
          else bind_r (is_on_track start finish now) (\<lambda>on.
            if on then Inr OnTrack
            else bind_r (is_overdue finish now) (\<lambda>over.
              if over then Inr Overdue else Inr Unknown)))))"

section \<open>Label wrapping\<close>

text \<open>
  A string is a sequence of characters with code points below 256; \<open>is_space\<close> is
  \<^verbatim>\<open>str.isspace\<close> on that range and \<open>py_split\<close> is \<^verbatim>\<open>name.split()\<close>: the maximal
  runs of characters that are not white space.
\<close>

definition is_space :: "char \<Rightarrow> bool" where
  "is_space c = ((of_char c :: nat) \<in> {9, 10, 11, 12, 13, 28, 29, 30, 31, 32, 133, 160})"

fun split_from :: "string \<Rightarrow> string \<Rightarrow> string list" where
  "split_from w [] = (if w = [] then [] else [w])"
| "split_from w (c # cs) =
     (if is_space c then (if w = [] then split_from [] cs else w # split_from [] cs)
      else split_from (w @ [c]) cs)"

definition py_split :: "string \<Rightarrow> string list" where
  "py_split s = split_from [] s"

text \<open>\<^verbatim>\<open>'<br>'.join(lines)\<close> and the slice \<^verbatim>\<open>lines[:n]\<close>, where a negative \<open>n\<close> counts
  from the end.\<close>

fun join_br :: "string list \<Rightarrow> string" where
  "join_br [] = []"
| "join_br [l] = l"
| "join_br (l # m # ls) = l @ ''<br>'' @ join_br (m # ls)"

definition slice_to :: "'a list \<Rightarrow> int \<Rightarrow> 'a list" where
  "slice_to xs n = (if 0 \<le> n then take (nat n) xs else take (nat (int (length xs) + n)) xs)"

text \<open>The \<^verbatim>\<open>for word in words\<close> loop of \<^verbatim>\<open>wrap_name\<close>, returning \<^verbatim>\<open>lines\<close> and
  \<^verbatim>\<open>current_line\<close> as they are when the loop is left, by exhaustion or by \<^verbatim>\<open>break\<close>.\<close>

fun wrap_loop :: "int \<Rightarrow> int \<Rightarrow> string list \<Rightarrow> string list \<Rightarrow> string \<Rightarrow> string list \<times> string" where
  "wrap_loop max_chars max_lines [] lines current_line = (lines, current_line)"
| "wrap_loop max_chars max_lines (word # words) lines current_line =
     (if int (length current_line) + int (length word) + 1 \<le> max_chars
      then wrap_loop max_chars max_lines words lines
             ((if current_line \<noteq> [] then current_line @ '' '' else current_line) @ word)
      else if int (length (lines @ [current_line])) = max_lines - 1
           then (lines @ [current_line], word)
           else wrap_loop max_chars max_lines words (lines @ [current_line]) word)"

definition wrap_name :: "string \<Rightarrow> int \<Rightarrow> int \<Rightarrow> string" where
  "wrap_name name max_chars max_lines =
     (if int (length name) \<le> max_chars then name
      else
        let words = py_split name;
            (lines0, current_line) = wrap_loop max_chars max_lines words [] [];
            lines1 = (if current_line \<noteq> [] then lines0 @ [current_line] else lines0);
            lines = (if int (length lines1) > max_lines then slice_to lines1 max_lines else lines1);
            result = join_br lines
        in if int (length lines) = max_lines \<and>
              int (length current_line) + sum_list (map (\<lambda>l. int (length l)) (butlast lines))
                < int (length name)
           then result @ ''...'' else result)"

text \<open>
  The call \<^verbatim>\<open>wrap_name(subject)\<close> with the default limits, on whatever the \<^verbatim>\<open>subject\<close>
  field holds: \<^verbatim>\<open>len\<close> raises \<^verbatim>\<open>TypeError\<close> on \<^verbatim>\<open>None\<close>, a Boolean or a number; a list
  or a dictionary of at most 100 entries is returned as it is, a longer one has no
  \<^verbatim>\<open>split\<close>.
\<close>

definition wrap_subject :: "json \<Rightarrow> error + json" where
  "wrap_subject name =
     (case name of
        JStr s \<Rightarrow> Inr (JStr (wrap_name s 100 2))
      | JArr xs \<Rightarrow> (if length xs \<le> 100 then Inr name else Inl AttributeError)
      | JObj kvs \<Rightarrow> (if length kvs \<le> 100 then Inr name else Inl AttributeError)
      | _ \<Rightarrow> Inl TypeError)"

section \<open>Normalising the work packages\<close>

text \<open>
  One entry of the list \<^verbatim>\<open>data\<close>, that is one row of the data frame. \<open>Task\<close> keeps the
  two values interpolated into the label \<^verbatim>\<open>#{wp_id}: {wrapped_subject}\<close>; the text
  formatting of the label is not modelled.
\<close>

record row =
  wp_id :: json
  Task :: "json \<times> json"
  Start :: "datetime option"
  Finish :: "datetime option"
  Status :: json
  Progress :: rat
  Assignee :: json
  Type :: json
  Color :: string
  Duration :: int
  MissingStart :: bool

text \<open>Lines 64 to 69: the two source dates, each from the field or its derived twin, and
  the one-day default for a missing end of the span.\<close>

definition source_start :: "(string \<Rightarrow> datetime option) \<Rightarrow> pydict \<Rightarrow> error + datetime option" where
  "source_start fromiso wp =
     parse_date fromiso (py_or (dict_get wp ''startDate'' JNull) (dict_get wp ''derivedStartDate'' JNull))"

definition source_due :: "(string \<Rightarrow> datetime option) \<Rightarrow> pydict \<Rightarrow> error + datetime option" where
  "source_due fromiso wp =
     parse_date fromiso (py_or (dict_get wp ''dueDate'' JNull) (dict_get wp ''derivedDueDate'' JNull))"

definition default_dates :: "datetime option \<Rightarrow> datetime option \<Rightarrow> datetime option \<times> datetime option" where
  "default_dates start_date due_date =
     (case (start_date, due_date) of
        (Some s, None) \<Rightarrow> (Some s, Some (add_days s 1))
      | (None, Some d) \<Rightarrow> (Some (add_days d (- 1)), Some d)
      | _ \<Rightarrow> (start_date, due_date))"

definition resolve_dates :: "(string \<Rightarrow> datetime option) \<Rightarrow> pydict \<Rightarrow> error + (datetime option \<times> datetime option)" where
  "resolve_dates fromiso wp =
     bind_r (source_start fromiso wp) (\<lambda>start_date.
     bind_r (source_due fromiso wp) (\<lambda>due_date.
       Inr (default_dates start_date due_date)))"

text \<open>\<^verbatim>\<open>wp.get('_links', {}).get(name, {}).get('title', default)\<close>.\<close>

definition link_title :: "pydict \<Rightarrow> string \<Rightarrow> string \<Rightarrow> error + json" where
  "link_title wp name dflt =
     bind_r (get_attr (dict_get wp ''_links'' (JObj [])) name (JObj [])) (\<lambda>link.
       get_attr link ''title'' (JStr dflt))"

text \<open>\<^verbatim>\<open>x / 100.0\<close>: defined on numbers, a Boolean counting as 1 or 0.\<close>

definition div_100 :: "json \<Rightarrow> error + rat" where
  "div_100 v =
     (case v of
        JInt n \<Rightarrow> Inr (of_int n / 100)
      | JFloat r \<Rightarrow> Inr (r / 100)
      | JBool b \<Rightarrow> Inr ((if b then 1 else 0) / 100)
      | _ \<Rightarrow> Inl TypeError)"

definition progress_of :: "pydict \<Rightarrow> error + rat" where
  "progress_of wp =
     (if dict_get wp ''percentageDone'' JNull \<noteq> JNull
      then div_100 (dict_get wp ''percentageDone'' (JInt 0))
      else Inr 0)"

definition duration_of :: "datetime option \<Rightarrow> datetime option \<Rightarrow> error + int" where
  "duration_of start_date due_date =
     (case (start_date, due_date) of
        (Some s, Some d) \<Rightarrow> bind_r (dt_sub d s) (\<lambda>us. Inr (td_days us))
      | _ \<Rightarrow> Inr 0)"

text \<open>The body of the \<^verbatim>\<open>for wp in work_packages\<close> loop, in the order of the source.\<close>

definition extract_row :: "(string \<Rightarrow> datetime option) \<Rightarrow> datetime \<Rightarrow> pydict \<Rightarrow> error + row" where
  "extract_row fromiso now wp =
     (let id = dict_get wp ''id'' JNull;
          subject = dict_get wp ''subject'' (JStr ''Untitled'') in
      bind_r (wrap_subject subject) (\<lambda>wrapped_subject.
      bind_r (resolve_dates fromiso wp) (\<lambda>(start_date, due_date).
      bind_r (link_title wp ''status'' ''Unknown'') (\<lambda>status.
      bind_r (progress_of wp) (\<lambda>progress.
      bind_r (link_title wp ''assignee'' ''Unassigned'') (\<lambda>assignee.
      bind_r (link_title wp ''type'' ''Task'') (\<lambda>type_name.
      bind_r (get_status_color status start_date due_date (Some now) None) (\<lambda>color.
      bind_r (duration_of start_date due_date) (\<lambda>duration.
        Inr \<lparr> wp_id = id, Task = (id, wrapped_subject), Start = start_date, Finish = due_date,
              Status = status, Progress = progress, Assignee = assignee, Type = type_name,
              Color = color, Duration = duration,
              MissingStart = (start_date = None) \<rparr>)))))))))"

text \<open>\<^verbatim>\<open>_extract_work_package_data\<close>: \<^verbatim>\<open>datetime.utcnow()\<close> is a naive reading \<open>clock\<close>
  of the clock; the first item that raises ends the loop.\<close>

fun extract_rows :: "(string \<Rightarrow> datetime option) \<Rightarrow> datetime \<Rightarrow> pydict list \<Rightarrow> error + row list" where
  "extract_rows fromiso now [] = Inr []"
| "extract_rows fromiso now (wp # wps) =
     bind_r (extract_row fromiso now wp) (\<lambda>r.
     bind_r (extract_rows fromiso now wps) (\<lambda>rs. Inr (r # rs)))"

definition extract_work_package_data :: "(string \<Rightarrow> datetime option) \<Rightarrow> int \<Rightarrow> pydict list \<Rightarrow> error + row list" where
  "extract_work_package_data fromiso clock work_packages =
     extract_rows fromiso (Naive clock) work_packages"

section \<open>Building the timeline\<close>

text \<open>A row of the data frame once the columns \<^verbatim>\<open>StartWeek\<close> and \<^verbatim>\<open>FinishWeek\<close> are set.\<close>

record week_row = row +
  StartWeek :: "int option"
  FinishWeek :: "int option"

text \<open>\<^verbatim>\<open>df[df['Type'].str.lower() == 'epic']\<close>: an entry that is not a string lowers to a
  missing value, which differs from the word.\<close>

definition lower_char :: "char \<Rightarrow> char" where
  "lower_char c =
     (let n = (of_char c :: nat) in
      if (65 \<le> n \<and> n \<le> 90) \<or> (192 \<le> n \<and> n \<le> 214) \<or> (216 \<le> n \<and> n \<le> 222)
      then char_of (n + 32) else c)"

definition str_lower :: "string \<Rightarrow> string" where
  "str_lower s = map lower_char s"

definition is_epic :: "'a row_scheme \<Rightarrow> bool" where
  "is_epic r = (case Type r of JStr s \<Rightarrow> str_lower s = ''epic'' | _ \<Rightarrow> False)"

text \<open>
  \<^verbatim>\<open>df.sort_values(['MissingStart', 'Start'], ascending=[True, True])\<close>: a stable sort
  on the two columns, \<^verbatim>\<open>False\<close> before \<^verbatim>\<open>True\<close>, earlier instants first and missing
  starts last. The starts have to be comparable with each other: naive and aware
  readings in one column raise \<^verbatim>\<open>TypeError\<close>.
\<close>

fun instant :: "datetime \<Rightarrow> int" where
  "instant (Naive a) = a"
| "instant (Aware a x) = a - x"

fun is_naive :: "datetime \<Rightarrow> bool" where
  "is_naive (Naive a) = True"
| "is_naive (Aware a x) = False"

definition dropna :: "'a option list \<Rightarrow> 'a list" where
  "dropna xs = concat (map (\<lambda>x. case x of None \<Rightarrow> [] | Some v \<Rightarrow> [v]) xs)"

definition comparable :: "datetime list \<Rightarrow> bool" where
  "comparable ds = (list_all is_naive ds \<or> list_all (\<lambda>d. \<not> is_naive d) ds)"

definition start_key :: "datetime option \<Rightarrow> bool \<times> int" where
  "start_key s = (case s of None \<Rightarrow> (True, 0) | Some d \<Rightarrow> (False, instant d))"

definition row_key :: "'a row_scheme \<Rightarrow> bool \<times> bool \<times> int" where
  "row_key r = (MissingStart r, start_key (Start r))"

definition sort_values :: "row list \<Rightarrow> error + row list" where
  "sort_values df =
     (if comparable (dropna (map Start df)) then Inr (sort_key row_key df) else Inl TypeError)"

text \<open>\<^verbatim>\<open>valid_starts.min()\<close> on a list that is not empty.\<close>

fun min_dt :: "datetime \<Rightarrow> datetime list \<Rightarrow> datetime" where
  "min_dt m [] = m"
| "min_dt m (d # ds) = min_dt (if instant d < instant m then d else m) ds"

text \<open>The local function \<^verbatim>\<open>week_or_none\<close> with its free variable \<^verbatim>\<open>min_start\<close>.\<close>

definition week_or_none :: "datetime \<Rightarrow> datetime option \<Rightarrow> error + int option" where
  "week_or_none min_start date =
     (case date of
        None \<Rightarrow> Inr None
      | Some d \<Rightarrow> bind_r (dt_sub d min_start) (\<lambda>us.
          let w = td_days us div 7 + 1 in Inr (Some (if w \<ge> 1 then w else 1))))"

text \<open>Lines 130 to 132 on one row: the two weeks, then \<^verbatim>\<open>FinishWeek\<close> replaced by
  \<^verbatim>\<open>StartWeek + 1\<close> where the two are equal (a missing week equals nothing).\<close>

definition set_weeks :: "datetime \<Rightarrow> row \<Rightarrow> error + week_row" where
  "set_weeks min_start r =
     bind_r (week_or_none min_start (Start r)) (\<lambda>sw.
     bind_r (week_or_none min_start (Finish r)) (\<lambda>fw.
       Inr (row.extend r
         \<lparr> StartWeek = sw,
           FinishWeek = (case (sw, fw) of
                           (Some a, Some b) \<Rightarrow> (if b = a then Some (a + 1) else Some b)
                         | _ \<Rightarrow> fw) \<rparr>)))"

fun set_weeks_all :: "datetime \<Rightarrow> row list \<Rightarrow> error + week_row list" where
  "set_weeks_all min_start [] = Inr []"
| "set_weeks_all min_start (r # rs) =
     bind_r (set_weeks min_start r) (\<lambda>w.
     bind_r (set_weeks_all min_start rs) (\<lambda>ws. Inr (w # ws)))"

definition no_weeks :: "row \<Rightarrow> week_row" where
  "no_weeks r = row.extend r \<lparr> StartWeek = None, FinishWeek = None \<rparr>"

definition add_weeks :: "row list \<Rightarrow> error + week_row list" where
  "add_weeks df =
     (case dropna (map Start df) of
        [] \<Rightarrow> Inr (map no_weeks df)
      | d # ds \<Rightarrow> set_weeks_all (min_dt d ds) df)"

definition plotted :: "week_row \<Rightarrow> bool" where
  "plotted w = (StartWeek w \<noteq> None \<and> FinishWeek w \<noteq> None)"

text \<open>
  The outcomes of \<^verbatim>\<open>generate_gantt_chart\<close> up to the point where the figure is drawn:
  the two notices, the frame \<^verbatim>\<open>df\<close> with the rows \<^verbatim>\<open>df_plot\<close> that become bars, and
  the error page of the \<^verbatim>\<open>except Exception\<close> handler. The work packages are those
  the client returned; drawing the figure is outside the model.
\<close>

datatype outcome =
    NoWorkPackages
  | NoScheduledTasks
  | Chart "week_row list" "week_row list"
  | ErrorPage error

definition build_frame :: "(string \<Rightarrow> datetime option) \<Rightarrow> int \<Rightarrow> pydict list \<Rightarrow> bool \<Rightarrow> error + week_row list" where
  "build_frame fromiso clock work_packages epic_only =
     bind_r (extract_work_package_data fromiso clock work_packages) (\<lambda>df0.
       let df1 = (if epic_only then filter is_epic df0 else df0) in
       if df1 = [] then Inr []
       else bind_r (sort_values df1) add_weeks)"

definition generate_gantt_chart :: "(string \<Rightarrow> datetime option) \<Rightarrow> int \<Rightarrow> pydict list \<Rightarrow> bool \<Rightarrow> outcome" where
  "generate_gantt_chart fromiso clock work_packages epic_only =
     (if work_packages = [] then NoWorkPackages
      else case build_frame fromiso clock work_packages epic_only of
             Inl e \<Rightarrow> ErrorPage e
           | Inr df \<Rightarrow>
               (let df_plot = filter plotted df in
                if df_plot = [] then NoScheduledTasks else Chart df df_plot))"

section \<open>A reference parser for concrete dates\<close>

text \<open>
  The library parser on the formats \<^verbatim>\<open>YYYY-MM-DD\<close> and \<^verbatim>\<open>YYYY-MM-DDTHH:MM:SS\<close>, the
  latter with an optional offset \<^verbatim>\<open>+HH:MM\<close>, \<^verbatim>\<open>-HH:MM\<close> or with seconds
  \<^verbatim>\<open>+HH:MM:SS\<close>. It is used for concrete inputs in these formats only; the general
  statements hold for every parser.
\<close>

definition digit :: "char \<Rightarrow> int option" where
  "digit c = (let n = (of_char c :: int) in if 48 \<le> n \<and> n \<le> 57 then Some (n - 48) else None)"

fun digits_from :: "int \<Rightarrow> string \<Rightarrow> int option" where
  "digits_from acc [] = Some acc"
| "digits_from acc (c # cs) =
     (case digit c of None \<Rightarrow> None | Some d \<Rightarrow> digits_from (10 * acc + d) cs)"

definition number :: "string \<Rightarrow> int option" where
  "number s = (if s = [] then None else digits_from 0 s)"

definition is_leap :: "int \<Rightarrow> bool" where
  "is_leap y = (y mod 4 = 0 \<and> (y mod 100 \<noteq> 0 \<or> y mod 400 = 0))"

definition days_in_month :: "int \<Rightarrow> int \<Rightarrow> int" where
  "days_in_month y m =
     (if m = 2 then (if is_leap y then 29 else 28)
      else if m = 4 \<or> m = 6 \<or> m = 9 \<or> m = 11 then 30 else 31)"

definition days_before_year :: "int \<Rightarrow> int" where
  "days_before_year y = (y - 1) * 365 + (y - 1) div 4 - (y - 1) div 100 + (y - 1) div 400"

definition days_before_month :: "int \<Rightarrow> int \<Rightarrow> int" where
  "days_before_month y m = sum_list (map (days_in_month y) [1 .. m - 1])"

text \<open>The days from 0001-01-01 to the date written \<^verbatim>\<open>YYYY-MM-DD\<close>.\<close>

definition parse_ymd :: "string \<Rightarrow> int option" where
  "parse_ymd s =
     (if length s = 10 \<and> s ! 4 = CHR ''-'' \<and> s ! 7 = CHR ''-'' then
        (case (number (take 4 s), number (take 2 (drop 5 s)), number (drop 8 s)) of
           (Some y, Some m, Some d) \<Rightarrow>
             (if 1 \<le> y \<and> 1 \<le> m \<and> m \<le> 12 \<and> 1 \<le> d \<and> d \<le> days_in_month y m
              then Some (days_before_year y + days_before_month y m + d - 1) else None)
         | _ \<Rightarrow> None)
      else None)"

text \<open>The seconds written \<^verbatim>\<open>HH:MM:SS\<close>, and an offset in seconds.\<close>

definition parse_hms :: "int \<Rightarrow> string \<Rightarrow> int option" where
  "parse_hms hours s =
     (if length s = 8 \<and> s ! 2 = CHR '':'' \<and> s ! 5 = CHR '':'' then
        (case (number (take 2 s), number (take 2 (drop 3 s)), number (drop 6 s)) of
           (Some h, Some m, Some sec) \<Rightarrow>
             (if h < hours \<and> m < 60 \<and> sec < 60 then Some (h * 3600 + m * 60 + sec) else None)
         | _ \<Rightarrow> None)
      else None)"

definition parse_offset :: "string \<Rightarrow> int option" where
  "parse_offset s =
     (case s of
        [] \<Rightarrow> None
      | c # t \<Rightarrow>
          (if c = CHR ''+'' \<or> c = CHR ''-'' then
             (case parse_hms 24 (if length t = 5 then t @ '':00'' else t) of
                None \<Rightarrow> None
              | Some secs \<Rightarrow> Some (if c = CHR ''-'' then - secs else secs))
           else None))"

definition fromisoformat :: "string \<Rightarrow> datetime option" where
  "fromisoformat s =
     (case parse_ymd (take 10 s) of
        None \<Rightarrow> None
      | Some days \<Rightarrow>
          (case drop 10 s of
             [] \<Rightarrow> Some (Naive (days * day_us))
           | sep # rest \<Rightarrow>
               (if sep \<noteq> CHR ''T'' then None
                else case parse_hms 24 (take 8 rest) of
                       None \<Rightarrow> None
                     | Some secs \<Rightarrow>
                         (let wall = days * day_us + secs * 1000000 in
                          case drop 8 rest of
                            [] \<Rightarrow> Some (Naive wall)
                          | tz \<Rightarrow> (case parse_offset tz of
                                     None \<Rightarrow> None
                                   | Some off \<Rightarrow> Some (Aware wall (off * 1000000)))))))"

section \<open>Notions used in the statements\<close>

text \<open>Replacing a final \<^verbatim>\<open>Z\<close> only, as the specification words the normalisation of a
  timestamp.\<close>

definition spec_replace_trailing_Z :: "string \<Rightarrow> string" where
  "spec_replace_trailing_Z s = (if s \<noteq> [] \<and> last s = CHR ''Z'' then butlast s @ ''+00:00'' else s)"

text \<open>Order between two timestamps that are both known, read on their instants.\<close>

definition known_lt :: "datetime option \<Rightarrow> datetime option \<Rightarrow> bool" where
  "known_lt a b = (case (a, b) of (Some x, Some y) \<Rightarrow> instant x < instant y | _ \<Rightarrow> False)"

definition known_le :: "datetime option \<Rightarrow> datetime option \<Rightarrow> bool" where
  "known_le a b = (case (a, b) of (Some x, Some y) \<Rightarrow> instant x \<le> instant y | _ \<Rightarrow> False)"

text \<open>The project week of a date, as the specification gives it:
  \<^verbatim>\<open>max(1, floor((date - minStart).days / 7) + 1)\<close>.\<close>

definition spec_week_of :: "datetime \<Rightarrow> datetime \<Rightarrow> int" where
  "spec_week_of min_start date = max 1 ((instant date - instant min_start) div day_us div 7 + 1)"

text \<open>A work package as the API delivers it, for concrete inputs: id, subject, the two
  dates (\<open>JNull\<close> when not set) and the title of the status link.\<close>

definition work_package :: "int \<Rightarrow> json \<Rightarrow> json \<Rightarrow> string \<Rightarrow> pydict" where
  "work_package n start due status =
     [(''id'', JInt n), (''subject'', JStr ''Task''), (''startDate'', start), (''dueDate'', due),
      (''_links'', JObj [(''status'', JObj [(''title'', JStr status)])])]"

text \<open>The item of the scenario: id 1, title Task A, from 2024-01-01 to 2024-01-10, status
  Open.\<close>

definition task_a :: pydict where
  "task_a = [(''id'', JInt 1), (''subject'', JStr ''Task A''), (''startDate'', JStr ''2024-01-01''),
             (''dueDate'', JStr ''2024-01-10''),
             (''_links'', JObj [(''status'', JObj [(''title'', JStr ''Open'')])])]"










section \<open>Properties\<close>

subsection \<open>Timestamps of one kind\<close>

lemma dt_lt_comparable: "is_naive a = is_naive b \<Longrightarrow> dt_lt a b = Inr (instant a < instant b)"
  by (cases a; cases b) simp_all

lemma dt_le_comparable: "is_naive a = is_naive b \<Longrightarrow> dt_le a b = Inr (instant a \<le> instant b)"
  by (cases a; cases b) simp_all


lemma comparable_pair: "comparable ds \<Longrightarrow> a \<in> set ds \<Longrightarrow> b \<in> set ds \<Longrightarrow> is_naive a = is_naive b"
  by (auto simp: comparable_def list_all_iff)

lemma set_dropna: "set (dropna xs) = {v. Some v \<in> set xs}"
  by (induction xs) (auto simp: dropna_def split: option.splits)

lemma comparable_dropna:
  "comparable (dropna xs) \<Longrightarrow> Some a \<in> set xs \<Longrightarrow> Some b \<in> set xs \<Longrightarrow> is_naive a = is_naive b"
  by (rule comparable_pair [of "dropna xs"]) (simp_all add: set_dropna)

subsection \<open>Date parsing\<close>

lemma parse_date_total:
  "parse_date fromiso v =
     Inr (if truthy v then (case v of JStr s \<Rightarrow> fromiso (replace_Z s) | _ \<Rightarrow> None) else None)"
  by (cases v) (auto simp: parse_date_def parse_date_try_def str_replace_Z_def bind_r_def split: option.splits)

text \<open>
  C9 (amended). Parsing a date field never raises, whatever the value and whatever the
  library parser answers: an empty or missing value and a value that is not a string give
  \<^verbatim>\<open>None\<close>, and so does a string that the library parser rejects once every \<^verbatim>\<open>Z\<close> in
  it is replaced by \<^verbatim>\<open>+00:00\<close>; a non-empty string it accepts after that replacement
  gives the parsed timestamp.
\<close>

theorem parse_date_never_raises:
  "(\<exists>r. parse_date fromiso v = Inr r) \<and>
   (\<not> truthy v \<longrightarrow> parse_date fromiso v = Inr None) \<and>
   ((\<forall>s. v \<noteq> JStr s) \<longrightarrow> parse_date fromiso v = Inr None) \<and>
   (\<forall>s. v = JStr s \<and> fromiso (replace_Z s) = None \<longrightarrow> parse_date fromiso v = Inr None) \<and>
   (\<forall>s d. v = JStr s \<and> s \<noteq> [] \<and> fromiso (replace_Z s) = Some d \<longrightarrow>
      parse_date fromiso v = Inr (Some d))"
  by (cases v) (auto simp: parse_date_total)

theorem parse_date_never_raises_witness:
  "parse_date fromisoformat (JStr ''2024-13-01'') = Inr None \<and>
   parse_date fromisoformat (JInt 5) = Inr None \<and>
   parse_date fromisoformat (JStr ''2024-01-01T00:00:00Z'') = Inr (Some (Aware 63839664000000000 0))"
proof -
  have a: "fromisoformat (replace_Z ''2024-13-01'') = None"
    by code_simp
  have b: "fromisoformat (replace_Z ''2024-01-01T00:00:00Z'') = Some (Aware 63839664000000000 0)"
    by code_simp
  from parse_date_never_raises [of fromisoformat "JStr ''2024-13-01''"] a
  have 1: "parse_date fromisoformat (JStr ''2024-13-01'') = Inr None"
    by blast
  from parse_date_never_raises [of fromisoformat "JInt 5"]
  have 2: "parse_date fromisoformat (JInt 5) = Inr None"
    by blast
  from parse_date_never_raises [of fromisoformat "JStr ''2024-01-01T00:00:00Z''"] b
  have 3: "parse_date fromisoformat (JStr ''2024-01-01T00:00:00Z'') = Inr (Some (Aware 63839664000000000 0))"
    by blast
  from 1 2 3 show ?thesis by blast
qed

text \<open>
  C9 as stated fails: the string \<^verbatim>\<open>2024-01-01T00:00:00Z:30\<close> has no final \<^verbatim>\<open>Z\<close> and is
  not a timestamp, yet replacing the inner \<^verbatim>\<open>Z\<close> makes it \<^verbatim>\<open>2024-01-01T00:00:00+00:00:30\<close>,
  a timestamp with an offset of thirty seconds, and the field resolves to it.
\<close>

theorem parse_date_trailing_Z_counterexample:
  "fromisoformat (spec_replace_trailing_Z ''2024-01-01T00:00:00Z:30'') = None \<and>
   parse_date fromisoformat (JStr ''2024-01-01T00:00:00Z:30'') =
     Inr (Some (Aware 63839664000000000 30000000))"
  by code_simp

subsection \<open>Status colour\<close>

lemma is_future_comparable:
  assumes "comparable (dropna [start, finish, now])"
  shows "is_future start now = Inr (known_lt now start)"
proof (cases "\<exists>s n. start = Some s \<and> now = Some n")
  case True
  then obtain s n where e: "start = Some s" "now = Some n" by blast
  have "is_naive n = is_naive s"
    by (rule comparable_dropna [OF assms]) (simp_all add: e)
  then show ?thesis
    using e by (simp add: is_future_def known_lt_def dt_lt_comparable)
next
  case False
  then show ?thesis
    by (auto simp: is_future_def known_lt_def split: option.splits)
qed

lemma is_overdue_comparable:
  assumes "comparable (dropna [start, finish, now])"
  shows "is_overdue finish now = Inr (known_lt finish now)"
proof (cases "\<exists>f n. finish = Some f \<and> now = Some n")
  case True
  then obtain f n where e: "finish = Some f" "now = Some n" by blast
  have "is_naive f = is_naive n"
    by (rule comparable_dropna [OF assms]) (simp_all add: e)
  then show ?thesis
    using e by (simp add: is_overdue_def known_lt_def dt_lt_comparable)
next
  case False
  then show ?thesis
    by (auto simp: is_overdue_def known_lt_def split: option.splits)
qed

lemma is_on_track_comparable:
  assumes "comparable (dropna [start, finish, now])"
  shows "is_on_track start finish now = Inr (known_le start now \<and> known_le now finish)"
proof (cases "\<exists>s f n. start = Some s \<and> finish = Some f \<and> now = Some n")
  case True
  then obtain s f n where e: "start = Some s" "finish = Some f" "now = Some n" by blast
  have 1: "is_naive s = is_naive n"
    by (rule comparable_dropna [OF assms]) (simp_all add: e)
  have 2: "is_naive n = is_naive f"
    by (rule comparable_dropna [OF assms]) (simp_all add: e)
  show ?thesis
    using e 1 2 by (simp add: is_on_track_def known_le_def dt_le_comparable bind_r_def)
next
  case False
  then show ?thesis
    by (auto simp: is_on_track_def known_le_def split: option.splits)
qed

text \<open>
  C3 (amended). With the default set of closed statuses, a status that is exactly one of
  the three spellings \<^verbatim>\<open>Closed\<close>, \<^verbatim>\<open>closed\<close>, \<^verbatim>\<open>CLOSED\<close> gives Done whatever the dates
  are. For any other status string, and timestamps of one kind, the colour is Future if
  the start is known and later than now, else OnTrack if start, finish and now are known
  with start \<open>\<le>\<close> now \<open>\<le>\<close> finish, else Overdue if the finish is known and earlier than
  now, else Unknown.
\<close>

theorem get_status_color_precedence:
  "(s \<in> {''Closed'', ''closed'', ''CLOSED''} \<longrightarrow>
      get_status_color (JStr s) start finish now None = Inr Done) \<and>
   (s \<notin> {''Closed'', ''closed'', ''CLOSED''} \<and> comparable (dropna [start, finish, now]) \<longrightarrow>
      get_status_color (JStr s) start finish now None =
        Inr (if known_lt now start then Future
             else if known_le start now \<and> known_le now finish then OnTrack
             else if known_lt finish now then Overdue
             else Unknown))"
proof (intro conjI impI)
  assume "s \<in> {''Closed'', ''closed'', ''CLOSED''}"
  then show "get_status_color (JStr s) start finish now None = Inr Done"
    by (simp add: get_status_color_def in_statuses_def default_closed_statuses_def bind_r_def)
next
  assume a: "s \<notin> {''Closed'', ''closed'', ''CLOSED''} \<and> comparable (dropna [start, finish, now])"
  then have c: "in_statuses (JStr s) default_closed_statuses = Inr False"
    by (simp add: in_statuses_def default_closed_statuses_def)
  from a show "get_status_color (JStr s) start finish now None =
        Inr (if known_lt now start then Future
             else if known_le start now \<and> known_le now finish then OnTrack
             else if known_lt finish now then Overdue
             else Unknown)"
    by (simp add: get_status_color_def c bind_r_def is_future_comparable [of start finish now]
        is_on_track_comparable is_overdue_comparable [of start finish now])
qed

theorem get_status_color_precedence_witness:
  "get_status_color (JStr ''Closed'') (Some (Naive 0)) (Some (Naive 1)) (Some (Naive 2)) None = Inr Done \<and>
   get_status_color (JStr ''Open'') (Some (Naive 0)) (Some (Naive 1)) (Some (Naive 2)) None = Inr Overdue"
proof -
  have c: "comparable (dropna [Some (Naive 0), Some (Naive 1), Some (Naive 2)])"
    by code_simp
  have n: "''Open'' \<notin> {''Closed'', ''closed'', ''CLOSED''}"
    by simp
  have k: "\<not> known_lt (Some (Naive 2)) (Some (Naive 0))" "\<not> known_le (Some (Naive 2)) (Some (Naive 1))"
    "known_lt (Some (Naive 1)) (Some (Naive 2))"
    by (simp_all add: known_lt_def known_le_def)
  from get_status_color_precedence [of "''Closed''" "Some (Naive 0)" "Some (Naive 1)" "Some (Naive 2)"]
  have 1: "get_status_color (JStr ''Closed'') (Some (Naive 0)) (Some (Naive 1)) (Some (Naive 2)) None = Inr Done"
    by simp
  from get_status_color_precedence [of "''Open''" "Some (Naive 0)" "Some (Naive 1)" "Some (Naive 2)"] c n k
  have 2: "get_status_color (JStr ''Open'') (Some (Naive 0)) (Some (Naive 1)) (Some (Naive 2)) None = Inr Overdue"
    by simp
  from 1 2 show ?thesis by simp
qed

text \<open>
  C3 as stated fails: \<^verbatim>\<open>cLOSED\<close> matches \<^verbatim>\<open>closed\<close> when letter case is ignored, but it
  is none of the three spellings, so with a finish before now the colour is Overdue.
\<close>

theorem closed_case_insensitive_counterexample:
  "str_lower ''cLOSED'' = ''closed'' \<and>
   get_status_color (JStr ''cLOSED'') (Some (Naive 0)) (Some (Naive 1)) (Some (Naive 2)) None = Inr Overdue \<and>
   Overdue \<noteq> Done"
  by code_simp

subsection \<open>Label wrapping\<close>

text \<open>
  C6. A title of 121 characters made of two words of 60 letters: both words are placed,
  one on each of the two lines, so nothing is truncated, and the result still ends with
  the ellipsis, because the test compares the letters kept with the length of the title,
  which counts the blank between the words.
\<close>

theorem wrap_name_ellipsis_without_truncation:
  "py_split (replicate 60 CHR ''a'' @ '' '' @ replicate 60 CHR ''b'') =
     [replicate 60 CHR ''a'', replicate 60 CHR ''b''] \<and>
   wrap_name (replicate 60 CHR ''a'' @ '' '' @ replicate 60 CHR ''b'') 100 2 =
     replicate 60 CHR ''a'' @ ''<br>'' @ replicate 60 CHR ''b'' @ ''...''"
  by code_simp

subsection \<open>Normalised rows\<close>

lemma bind_r_Inr: "bind_r m f = Inr y \<longleftrightarrow> (\<exists>x. m = Inr x \<and> f x = Inr y)"
  by (cases m) (simp_all add: bind_r_def)

lemma extract_row_Inr:
  assumes "extract_row fromiso now wp = Inr r"
  shows "resolve_dates fromiso wp = Inr (Start r, Finish r)"
    and "progress_of wp = Inr (Progress r)"
    and "duration_of (Start r) (Finish r) = Inr (Duration r)"
    and "MissingStart r = (Start r = None)"
    and "link_title wp ''status'' ''Unknown'' = Inr (Status r)"
    and "get_status_color (Status r) (Start r) (Finish r) (Some now) None = Inr (Color r)"
  using assms
  by (auto simp: extract_row_def Let_def bind_r_Inr split: prod.splits)

lemma extract_rows_Inr:
  "extract_rows fromiso now wps = Inr rows \<longleftrightarrow>
     list_all2 (\<lambda>wp r. extract_row fromiso now wp = Inr r) wps rows"
proof (induction wps arbitrary: rows)
  case Nil
  then show ?case by auto
next
  case (Cons wp wps)
  then show ?case
    by (cases rows) (auto simp: bind_r_Inr)
qed

lemma extract_rows_member:
  assumes "extract_rows fromiso now wps = Inr rows" "r \<in> set rows"
  shows "\<exists>wp \<in> set wps. extract_row fromiso now wp = Inr r"
proof -
  from assms(1) have l: "list_all2 (\<lambda>wp r. extract_row fromiso now wp = Inr r) wps rows"
    by (simp add: extract_rows_Inr)
  from assms(2) obtain i where i: "i < length rows" "rows ! i = r"
    by (auto simp: in_set_conv_nth)
  from l i have "extract_row fromiso now (wps ! i) = Inr r" "i < length wps"
    by (auto simp: list_all2_conv_all_nth)
  then show ?thesis
    using nth_mem by blast
qed









lemma dt_sub_Inr: "dt_sub a b = Inr x \<Longrightarrow> x = instant a - instant b"
  by (cases a; cases b) auto

lemma duration_of_Inr:
  assumes "duration_of s f = Inr n"
  shows "n = (case (s, f) of (Some a, Some b) \<Rightarrow> (instant b - instant a) div day_us | _ \<Rightarrow> 0)"
  using assms
  by (auto simp: duration_of_def bind_r_Inr td_days_def split: option.splits dest: dt_sub_Inr)

lemma div_day_neg: "(x div day_us < 0) = (x < 0)"
  by (simp add: day_us_def pos_imp_zdiv_neg_iff)

text \<open>
  C4 (amended). For every normalised row the duration is the whole number of days, rounded
  down, from the resolved start to the resolved finish when both are known, and 0 when
  either is unknown; there is no lower bound of 0: the duration is negative exactly when
  the finish is earlier than the start.
\<close>

theorem duration_days:
  assumes "extract_work_package_data fromiso clock wps = Inr rows"
  shows "\<forall>r \<in> set rows.
           Duration r = (case (Start r, Finish r) of
                           (Some s, Some f) \<Rightarrow> (instant f - instant s) div day_us
                         | _ \<Rightarrow> 0) \<and>
           (Duration r < 0) = known_lt (Finish r) (Start r)"
proof
  fix r assume "r \<in> set rows"
  with assms obtain wp where "extract_row fromiso (Naive clock) wp = Inr r"
    unfolding extract_work_package_data_def using extract_rows_member by blast
  then have d: "duration_of (Start r) (Finish r) = Inr (Duration r)"
    by (rule extract_row_Inr(3))
  have e: "Duration r = (case (Start r, Finish r) of
                           (Some s, Some f) \<Rightarrow> (instant f - instant s) div day_us
                         | _ \<Rightarrow> 0)"
    by (rule duration_of_Inr [OF d])
  have "(Duration r < 0) = known_lt (Finish r) (Start r)"
    unfolding e by (auto simp: known_lt_def div_day_neg split: option.splits)
  with e show "Duration r = (case (Start r, Finish r) of
                           (Some s, Some f) \<Rightarrow> (instant f - instant s) div day_us
                         | _ \<Rightarrow> 0) \<and>
           (Duration r < 0) = known_lt (Finish r) (Start r)"
    by blast
qed

theorem duration_days_witness:
  "\<exists>rows. extract_work_package_data fromisoformat 0
            [work_package 1 (JStr ''2024-01-01'') (JStr ''2024-01-10'') ''Open''] = Inr rows \<and>
          map Duration rows = [9]"
proof -
  let ?e = "extract_work_package_data fromisoformat 0
            [work_package 1 (JStr ''2024-01-01'') (JStr ''2024-01-10'') ''Open'']"
  have v: "(case ?e of
              Inr rows \<Rightarrow> map (\<lambda>r. (Start r, Finish r)) rows =
                [(Some (Naive 63839664000000000), Some (Naive 63840441600000000))]
            | Inl e \<Rightarrow> False)"
    by code_simp
  then obtain rows where e: "?e = Inr rows"
    and d: "map (\<lambda>r. (Start r, Finish r)) rows =
                [(Some (Naive 63839664000000000), Some (Naive 63840441600000000))]"
    by (cases ?e) auto
  from d obtain r where r: "rows = [r]" "Start r = Some (Naive 63839664000000000)"
    "Finish r = Some (Naive 63840441600000000)"
    by auto
  from duration_days [OF e] r have "Duration r = 9"
    by (simp add: day_us_def)
  with e r show ?thesis by simp
qed

text \<open>C4 as stated fails: a start on 2024-01-10 with a due date on 2024-01-01 gives the
  duration -9, not 0.\<close>

theorem duration_negative_counterexample:
  "(case extract_work_package_data fromisoformat 0
           [[(''id'', JInt 1), (''subject'', JStr ''Task A''),
             (''startDate'', JStr ''2024-01-10''), (''dueDate'', JStr ''2024-01-01'')]] of
      Inr rows \<Rightarrow> map Duration rows
    | Inl e \<Rightarrow> []) = [- 9]"
  by code_simp

subsection \<open>The frame of the chart\<close>

lemma truncate_extend: "row.truncate (row.extend r m) = r"
  by (simp add: row.defs)

lemma row_key_truncate: "row_key (row.truncate w) = row_key w"
  by (simp add: row_key_def row.defs)

lemma fields_truncate: "Start (row.truncate w) = Start w" "Finish (row.truncate w) = Finish w"
  "MissingStart (row.truncate w) = MissingStart w"
  by (simp_all add: row.defs)

lemma week_or_none_Inr:
  assumes "week_or_none m date = Inr w"
  shows "w = map_option (spec_week_of m) date"
  using assms
  by (cases date) (auto simp: week_or_none_def bind_r_Inr spec_week_of_def td_days_def Let_def max_def dest!: dt_sub_Inr)

lemma set_weeks_Inr:
  assumes "set_weeks m r = Inr w"
  shows "row.truncate w = r"
    and "StartWeek w = map_option (spec_week_of m) (Start r)"
    and "FinishWeek w = (case (Start r, Finish r) of
                           (Some s, Some f) \<Rightarrow> Some (if spec_week_of m f = spec_week_of m s then spec_week_of m s + 1 else spec_week_of m f)
                         | (_, f) \<Rightarrow> map_option (spec_week_of m) f)"
proof -
  from assms obtain sw fw where
    sw: "week_or_none m (Start r) = Inr sw" and fw: "week_or_none m (Finish r) = Inr fw"
    and w: "w = row.extend r \<lparr> StartWeek = sw,
           FinishWeek = (case (sw, fw) of
                           (Some a, Some b) \<Rightarrow> (if b = a then Some (a + 1) else Some b)
                         | _ \<Rightarrow> fw) \<rparr>"
    by (auto simp: set_weeks_def bind_r_Inr)
  note s = week_or_none_Inr [OF sw] week_or_none_Inr [OF fw]
  show "row.truncate w = r" by (simp add: w truncate_extend)
  show "StartWeek w = map_option (spec_week_of m) (Start r)"
    by (simp add: w s row.defs)
  show "FinishWeek w = (case (Start r, Finish r) of
                           (Some s, Some f) \<Rightarrow> Some (if spec_week_of m f = spec_week_of m s then spec_week_of m s + 1 else spec_week_of m f)
                         | (_, f) \<Rightarrow> map_option (spec_week_of m) f)"
    by (simp add: w s row.defs split: option.splits)
qed

lemma set_weeks_all_Inr:
  "set_weeks_all m rs = Inr ws \<longleftrightarrow> list_all2 (\<lambda>r w. set_weeks m r = Inr w) rs ws"
proof (induction rs arbitrary: ws)
  case Nil
  then show ?case by auto
next
  case (Cons r rs)
  then show ?case
    by (cases ws) (auto simp: bind_r_Inr)
qed

lemma min_dt_mem: "min_dt m ds \<in> set (m # ds)"
  by (induction ds arbitrary: m) (auto split: if_splits)

lemma min_dt_le: "x \<in> set (m # ds) \<Longrightarrow> instant (min_dt m ds) \<le> instant x"
proof (induction ds arbitrary: m x)
  case Nil
  then show ?case by simp
next
  case (Cons d ds)
  let ?m = "if instant d < instant m then d else m"
  have a: "instant (min_dt ?m ds) \<le> instant ?m"
    by (rule Cons.IH) simp
  show ?case
  proof (cases "x \<in> set ds")
    case True
    then have "instant (min_dt ?m ds) \<le> instant x"
      by (intro Cons.IH) simp
    then show ?thesis by simp
  next
    case False
    with Cons.prems have "x = m \<or> x = d" by auto
    then show ?thesis using a by (auto split: if_splits)
  qed
qed

lemma week_of_mono: "instant s \<le> instant f \<Longrightarrow> spec_week_of m s \<le> spec_week_of m f"
  unfolding spec_week_of_def day_us_def
  by (intro max.mono order_refl add_right_mono zdiv_mono1) simp_all

lemma week_of_ge1: "1 \<le> spec_week_of m s"
  by (simp add: spec_week_of_def)

lemma resolve_dates_both:
  assumes "resolve_dates fromiso wp = Inr (s, f)"
  shows "(s = None) = (f = None)"
  using assms
  by (auto simp: resolve_dates_def bind_r_Inr default_dates_def split: option.splits)

lemma extract_row_both:
  assumes "extract_row fromiso now wp = Inr r"
  shows "(Start r = None) = (Finish r = None)"
  using extract_row_Inr(1) [OF assms] by (rule resolve_dates_both)

lemma plotted_no_weeks: "filter plotted (map no_weeks xs) = []"
  by (induction xs) (simp_all add: plotted_def no_weeks_def row.defs)

lemma chart_frame:
  assumes "generate_gantt_chart fromiso clock wps epic = Chart df df_plot"
  shows "\<exists>rows m.
    extract_work_package_data fromiso clock wps = Inr rows \<and>
    map row.truncate df = sort_key row_key (if epic then filter is_epic rows else rows) \<and>
    comparable (dropna (map Start df)) \<and>
    Some m \<in> set (map Start df) \<and>
    (\<forall>s. Some s \<in> set (map Start df) \<longrightarrow> instant m \<le> instant s) \<and>
    (\<forall>w \<in> set df. set_weeks m (row.truncate w) = Inr w) \<and>
    df_plot = filter plotted df \<and> df_plot \<noteq> []"
proof -
  from assms have bf: "build_frame fromiso clock wps epic = Inr df"
    and pl: "df_plot = filter plotted df" and ne: "df_plot \<noteq> []"
    by (auto simp: generate_gantt_chart_def Let_def split: if_splits sum.splits)
  from bf obtain rows where ex: "extract_work_package_data fromiso clock wps = Inr rows"
    and rest: "(let df1 = (if epic then filter is_epic rows else rows) in
       if df1 = [] then Inr []
       else bind_r (sort_values df1) add_weeks) = Inr df"
    by (auto simp: build_frame_def bind_r_Inr)
  define df1 where "df1 = (if epic then filter is_epic rows else rows)"
  from pl ne have dfne: "df \<noteq> []" by auto
  from rest dfne have "bind_r (sort_values df1) add_weeks = Inr df"
    by (auto simp: df1_def Let_def split: if_splits)
  then obtain df2 where sv: "sort_values df1 = Inr df2" and aw: "add_weeks df2 = Inr df"
    by (auto simp: bind_r_Inr)
  from sv have cmp: "comparable (dropna (map Start df1))" and df2: "df2 = sort_key row_key df1"
    by (auto simp: sort_values_def split: if_splits)
  have nonempty: "dropna (map Start df2) \<noteq> []"
  proof
    assume "dropna (map Start df2) = []"
    with aw have "df = map no_weeks df2" by (simp add: add_weeks_def)
    with pl ne show False by (simp add: plotted_no_weeks)
  qed
  then obtain d ds where dds: "dropna (map Start df2) = d # ds"
    by (cases "dropna (map Start df2)") auto
  define m where "m = min_dt d ds"
  from aw dds have "set_weeks_all m df2 = Inr df"
    by (simp add: add_weeks_def m_def)
  then have l2: "list_all2 (\<lambda>r w. set_weeks m r = Inr w) df2 df"
    by (simp add: set_weeks_all_Inr)
  have tr: "map row.truncate df = df2"
  proof (rule nth_equalityI)
    show "length (map row.truncate df) = length df2"
      using l2 by (simp add: list_all2_lengthD)
  next
    fix i assume "i < length (map row.truncate df)"
    then have i: "i < length df" by simp
    with l2 have "set_weeks m (df2 ! i) = Inr (df ! i)"
      by (simp add: list_all2_conv_all_nth)
    then have "row.truncate (df ! i) = df2 ! i" by (rule set_weeks_Inr(1))
    with i show "map row.truncate df ! i = df2 ! i" by simp
  qed
  have each: "\<forall>w \<in> set df. set_weeks m (row.truncate w) = Inr w"
  proof
    fix w assume "w \<in> set df"
    then obtain i where i: "i < length df" "df ! i = w"
      by (auto simp: in_set_conv_nth)
    with l2 have sw: "set_weeks m (df2 ! i) = Inr w"
      by (auto simp: list_all2_conv_all_nth)
    from sw have "row.truncate w = df2 ! i" by (rule set_weeks_Inr(1))
    with sw show "set_weeks m (row.truncate w) = Inr w" by simp
  qed
  have starts: "map Start df = map Start df2"
  proof -
    have "map Start df2 = map Start (map row.truncate df)" by (simp add: tr)
    also have "\<dots> = map Start df" by (simp add: fields_truncate)
    finally show ?thesis by simp
  qed
  have cmp2: "comparable (dropna (map Start df))"
    using cmp by (simp add: starts df2 comparable_def list_all_iff set_dropna)
  have mem: "Some m \<in> set (map Start df)"
  proof -
    have "m \<in> set (dropna (map Start df2))"
      unfolding dds m_def by (rule min_dt_mem)
    then show ?thesis by (simp add: starts set_dropna)
  qed
  have least: "\<forall>s. Some s \<in> set (map Start df) \<longrightarrow> instant m \<le> instant s"
  proof (intro allI impI)
    fix s assume "Some s \<in> set (map Start df)"
    then have "s \<in> set (dropna (map Start df2))" by (simp add: starts set_dropna)
    then have "s \<in> set (d # ds)" by (simp add: dds)
    then show "instant m \<le> instant s" unfolding m_def by (rule min_dt_le)
  qed
  from ex tr df2 cmp2 mem least each pl ne show ?thesis
    unfolding df1_def by blast
qed

lemma chart_rows:
  assumes "generate_gantt_chart fromiso clock wps epic = Chart df df_plot"
  shows "\<exists>m.
    (\<exists>w \<in> set df_plot. Start w = Some m) \<and>
    (\<forall>w \<in> set df. \<forall>s. Start w = Some s \<longrightarrow> instant m \<le> instant s) \<and>
    (\<forall>w \<in> set df.
       (Start w = None) = (Finish w = None) \<and>
       MissingStart w = (Start w = None) \<and>
       plotted w = (Start w \<noteq> None) \<and>
       StartWeek w = map_option (spec_week_of m) (Start w) \<and>
       FinishWeek w = (case (Start w, Finish w) of
                         (Some s, Some f) \<Rightarrow>
                           Some (if spec_week_of m f = spec_week_of m s then spec_week_of m s + 1 else spec_week_of m f)
                       | _ \<Rightarrow> None)) \<and>
    df_plot = filter plotted df"
proof -
  from chart_frame [OF assms] obtain rows m where
    ex: "extract_work_package_data fromiso clock wps = Inr rows" and
    tr: "map row.truncate df = sort_key row_key (if epic then filter is_epic rows else rows)" and
    mem: "Some m \<in> set (map Start df)" and
    least: "\<forall>s. Some s \<in> set (map Start df) \<longrightarrow> instant m \<le> instant s" and
    each: "\<forall>w \<in> set df. set_weeks m (row.truncate w) = Inr w" and
    pl: "df_plot = filter plotted df"
    by blast
  have row: "(Start w = None) = (Finish w = None) \<and>
       MissingStart w = (Start w = None) \<and>
       plotted w = (Start w \<noteq> None) \<and>
       StartWeek w = map_option (spec_week_of m) (Start w) \<and>
       FinishWeek w = (case (Start w, Finish w) of
                         (Some s, Some f) \<Rightarrow>
                           Some (if spec_week_of m f = spec_week_of m s then spec_week_of m s + 1 else spec_week_of m f)
                       | _ \<Rightarrow> None)" if w: "w \<in> set df" for w
  proof -
    from w have "row.truncate w \<in> set (map row.truncate df)" by simp
    then have "row.truncate w \<in> set rows"
      by (auto simp: tr split: if_splits)
    with ex obtain wp where er: "extract_row fromiso (Naive clock) wp = Inr (row.truncate w)"
      unfolding extract_work_package_data_def using extract_rows_member by blast
    have both: "(Start w = None) = (Finish w = None)"
      using extract_row_both [OF er] by (simp add: fields_truncate)
    have ms: "MissingStart w = (Start w = None)"
      using extract_row_Inr(4) [OF er] by (simp add: fields_truncate)
    from each w have sw: "set_weeks m (row.truncate w) = Inr w" by blast
    have a: "StartWeek w = map_option (spec_week_of m) (Start w)"
      using set_weeks_Inr(2) [OF sw] by (simp add: fields_truncate)
    have b: "FinishWeek w = (case (Start w, Finish w) of
                         (Some s, Some f) \<Rightarrow>
                           Some (if spec_week_of m f = spec_week_of m s then spec_week_of m s + 1 else spec_week_of m f)
                       | _ \<Rightarrow> None)"
      using set_weeks_Inr(3) [OF sw] both by (auto simp: fields_truncate split: option.splits)
    have c: "plotted w = (Start w \<noteq> None)"
      using both by (auto simp: plotted_def a b split: option.splits)
    from both ms a b c show ?thesis by blast
  qed
  from mem obtain w where w: "w \<in> set df" "Start w = Some m" by auto
  with row [of w] have "plotted w" by simp
  with w pl have w': "\<exists>w \<in> set df_plot. Start w = Some m" by auto
  have l: "\<forall>w \<in> set df. \<forall>s. Start w = Some s \<longrightarrow> instant m \<le> instant s"
    using least by (metis image_eqI set_map)
  from w' l row pl show ?thesis by blast
qed

text \<open>
  C1 (amended). Every row that becomes a bar has a start week of at least 1 and a finish
  week different from it; the finish week is the start week plus one when both dates fall
  in the same project week, and it is greater than the start week whenever the finish is
  not earlier than the start. (A finish that precedes the start by enough to fall in an
  earlier week gives a finish week below the start week.)
\<close>

theorem finish_week_after_start_week:
  assumes "generate_gantt_chart fromiso clock wps epic = Chart df df_plot"
  shows "\<exists>min_start. \<forall>w \<in> set df_plot. \<exists>s f sw fw.
           Start w = Some s \<and> Finish w = Some f \<and>
           StartWeek w = Some sw \<and> FinishWeek w = Some fw \<and>
           sw = spec_week_of min_start s \<and> 1 \<le> sw \<and> fw \<noteq> sw \<and>
           (instant s \<le> instant f \<longrightarrow> sw < fw) \<and>
           (spec_week_of min_start f = spec_week_of min_start s \<longrightarrow> fw = sw + 1)"
proof -
  from chart_rows [OF assms] obtain m where
    row: "\<forall>w \<in> set df.
       (Start w = None) = (Finish w = None) \<and>
       MissingStart w = (Start w = None) \<and>
       plotted w = (Start w \<noteq> None) \<and>
       StartWeek w = map_option (spec_week_of m) (Start w) \<and>
       FinishWeek w = (case (Start w, Finish w) of
                         (Some s, Some f) \<Rightarrow>
                           Some (if spec_week_of m f = spec_week_of m s then spec_week_of m s + 1 else spec_week_of m f)
                       | _ \<Rightarrow> None)" and
    pl: "df_plot = filter plotted df"
    by blast
  have "\<exists>s f sw fw.
           Start w = Some s \<and> Finish w = Some f \<and>
           StartWeek w = Some sw \<and> FinishWeek w = Some fw \<and>
           sw = spec_week_of m s \<and> 1 \<le> sw \<and> fw \<noteq> sw \<and>
           (instant s \<le> instant f \<longrightarrow> sw < fw) \<and>
           (spec_week_of m f = spec_week_of m s \<longrightarrow> fw = sw + 1)" if w: "w \<in> set df_plot" for w
  proof -
    from w pl have wd: "w \<in> set df" and p: "plotted w" by auto
    from row wd p obtain s f where sf: "Start w = Some s" "Finish w = Some f"
      by (metis option.exhaust)
    from row wd sf have sw: "StartWeek w = Some (spec_week_of m s)"
      and fw: "FinishWeek w = Some (if spec_week_of m f = spec_week_of m s then spec_week_of m s + 1 else spec_week_of m f)"
      by auto
    have mono: "instant s \<le> instant f \<longrightarrow> spec_week_of m s \<le> spec_week_of m f"
      by (simp add: week_of_mono)
    show ?thesis
      using sf sw fw mono week_of_ge1 [of m s] by auto
  qed
  then show ?thesis by blast
qed

theorem finish_week_after_start_week_witness:
  "\<exists>df df_plot.
     generate_gantt_chart fromisoformat 0
       [work_package 1 (JStr ''2024-01-01'') (JStr ''2024-01-10'') ''Open''] False = Chart df df_plot \<and>
     length df_plot = 1 \<and>
     list_all (\<lambda>w. \<exists>sw fw. StartWeek w = Some sw \<and> FinishWeek w = Some fw \<and> sw < fw) df_plot"
proof -
  let ?g = "generate_gantt_chart fromisoformat 0
       [work_package 1 (JStr ''2024-01-01'') (JStr ''2024-01-10'') ''Open''] False"
  have v: "(case ?g of
      Chart df df_plot \<Rightarrow> map (\<lambda>w. (Start w, Finish w)) df_plot =
         [(Some (Naive 63839664000000000), Some (Naive 63840441600000000))]
    | _ \<Rightarrow> False)"
    by code_simp
  then obtain df df_plot where g: "?g = Chart df df_plot"
    and d: "map (\<lambda>w. (Start w, Finish w)) df_plot =
         [(Some (Naive 63839664000000000), Some (Naive 63840441600000000))]"
    by (cases ?g) auto
  from d obtain w where w: "df_plot = [w]" "Start w = Some (Naive 63839664000000000)"
    "Finish w = Some (Naive 63840441600000000)"
    by auto
  from finish_week_after_start_week [OF g] w
  have "\<exists>sw fw. StartWeek w = Some sw \<and> FinishWeek w = Some fw \<and> sw < fw"
    by fastforce
  with g w show ?thesis by simp
qed

text \<open>
  C1 as stated fails: with a first item from 2024-01-01 to 2024-01-02, a second item
  starting on 2024-03-01 with a due date on 2024-01-15 gets start week 9 and finish
  week 3.
\<close>

theorem finish_week_before_start_week_counterexample:
  "(case generate_gantt_chart fromisoformat 0
           [work_package 1 (JStr ''2024-01-01'') (JStr ''2024-01-02'') ''Open'',
            work_package 2 (JStr ''2024-03-01'') (JStr ''2024-01-15'') ''Open''] False of
      Chart df df_plot \<Rightarrow> map (\<lambda>w. (StartWeek w, FinishWeek w)) df_plot
    | _ \<Rightarrow> []) = [(Some 1, Some 2), (Some 9, Some 3)]"
  by code_simp

subsection \<open>Project weeks\<close>

lemma get_status_color_naive:
  "\<exists>c. get_status_color (JStr s) (Some (Naive a)) (Some (Naive b)) (Some (Naive n)) None = Inr c"
  by (simp add: get_status_color_def in_statuses_def bind_r_def is_future_def is_on_track_def is_overdue_def)

lemma extract_task_a:
  "\<exists>c. extract_row fromisoformat (Naive clock) task_a =
     Inr \<lparr> wp_id = JInt 1, Task = (JInt 1, JStr ''Task A''),
           Start = Some (Naive 63839664000000000), Finish = Some (Naive 63840441600000000),
           Status = JStr ''Open'', Progress = 0, Assignee = JStr ''Unassigned'', Type = JStr ''Task'',
           Color = c, Duration = 9, MissingStart = False \<rparr>"
proof -
  have 1: "dict_get task_a ''id'' JNull = JInt 1" by code_simp
  have 2: "wrap_subject (dict_get task_a ''subject'' (JStr ''Untitled'')) = Inr (JStr ''Task A'')" by code_simp
  have 3: "resolve_dates fromisoformat task_a = Inr (Some (Naive 63839664000000000), Some (Naive 63840441600000000))"
    by code_simp
  have 4: "link_title task_a ''status'' ''Unknown'' = Inr (JStr ''Open'')" by code_simp
  have 5: "progress_of task_a = Inr 0" by code_simp
  have 6: "link_title task_a ''assignee'' ''Unassigned'' = Inr (JStr ''Unassigned'')" by code_simp
  have 7: "link_title task_a ''type'' ''Task'' = Inr (JStr ''Task'')" by code_simp
  have 8: "duration_of (Some (Naive 63839664000000000)) (Some (Naive 63840441600000000)) = Inr 9" by code_simp
  obtain c where 9: "get_status_color (JStr ''Open'') (Some (Naive 63839664000000000))
      (Some (Naive 63840441600000000)) (Some (Naive clock)) None = Inr c"
    using get_status_color_naive by blast
  show ?thesis
    by (simp add: extract_row_def Let_def 1 2 3 4 5 6 7 8 9 bind_r_def)
qed

lemma task_a_weeks:
  "\<exists>w. generate_gantt_chart fromisoformat clock [task_a] False = Chart [w] [w] \<and>
        StartWeek w = Some 1 \<and> FinishWeek w = Some 2"
proof -
  obtain c where e: "extract_row fromisoformat (Naive clock) task_a =
     Inr \<lparr> wp_id = JInt 1, Task = (JInt 1, JStr ''Task A''),
           Start = Some (Naive 63839664000000000), Finish = Some (Naive 63840441600000000),
           Status = JStr ''Open'', Progress = 0, Assignee = JStr ''Unassigned'', Type = JStr ''Task'',
           Color = c, Duration = 9, MissingStart = False \<rparr>"
    using extract_task_a by blast
  show ?thesis
    by (simp add: generate_gantt_chart_def build_frame_def extract_work_package_data_def e bind_r_def
        sort_values_def comparable_def dropna_def add_weeks_def set_weeks_def week_or_none_def
        td_days_def day_us_def plotted_def row.defs Let_def)
qed

text \<open>
  C8. With \<open>min_start\<close> the earliest start among the rows that become bars, every such
  row has the start week \<open>spec_week_of min_start\<close> of its start and the finish week
  \<open>spec_week_of min_start\<close> of its finish (moved to the start week plus one when the two
  coincide), where \<open>spec_week_of\<close> is \<^verbatim>\<open>max(1, floor((date - minStart).days / 7) + 1)\<close>. The
  single item from 2024-01-01 to 2024-01-10 gives, at any reading of the clock, one row
  with start week 1 and finish week 2.
\<close>

theorem week_index:
  "(generate_gantt_chart fromiso clock wps epic = Chart df df_plot \<longrightarrow>
      (\<exists>min_start.
         (\<exists>w \<in> set df_plot. Start w = Some min_start) \<and>
         (\<forall>w \<in> set df_plot. \<forall>s. Start w = Some s \<longrightarrow> instant min_start \<le> instant s) \<and>
         (\<forall>w \<in> set df_plot. \<exists>s f.
            Start w = Some s \<and> Finish w = Some f \<and>
            StartWeek w = Some (spec_week_of min_start s) \<and>
            FinishWeek w = Some (if spec_week_of min_start f = spec_week_of min_start s
                                 then spec_week_of min_start s + 1 else spec_week_of min_start f)))) \<and>
   (\<exists>w. generate_gantt_chart fromisoformat now_clock [task_a] False = Chart [w] [w] \<and>
        StartWeek w = Some 1 \<and> FinishWeek w = Some 2)"
proof (intro conjI impI)
  assume g: "generate_gantt_chart fromiso clock wps epic = Chart df df_plot"
  from chart_rows [OF g] obtain m where
    mem: "\<exists>w \<in> set df_plot. Start w = Some m" and
    least: "\<forall>w \<in> set df. \<forall>s. Start w = Some s \<longrightarrow> instant m \<le> instant s" and
    row: "\<forall>w \<in> set df.
       (Start w = None) = (Finish w = None) \<and>
       MissingStart w = (Start w = None) \<and>
       plotted w = (Start w \<noteq> None) \<and>
       StartWeek w = map_option (spec_week_of m) (Start w) \<and>
       FinishWeek w = (case (Start w, Finish w) of
                         (Some s, Some f) \<Rightarrow>
                           Some (if spec_week_of m f = spec_week_of m s then spec_week_of m s + 1 else spec_week_of m f)
                       | _ \<Rightarrow> None)" and
    pl: "df_plot = filter plotted df"
    by blast
  have a: "\<forall>w \<in> set df_plot. \<forall>s. Start w = Some s \<longrightarrow> instant m \<le> instant s"
    using least pl by auto
  have b: "\<exists>s f. Start w = Some s \<and> Finish w = Some f \<and>
            StartWeek w = Some (spec_week_of m s) \<and>
            FinishWeek w = Some (if spec_week_of m f = spec_week_of m s
                                 then spec_week_of m s + 1 else spec_week_of m f)" if w: "w \<in> set df_plot" for w
  proof -
    from w pl have wd: "w \<in> set df" and p: "plotted w" by auto
    from row wd p obtain s f where sf: "Start w = Some s" "Finish w = Some f"
      by (metis option.exhaust)
    from row wd sf show ?thesis by auto
  qed
  from mem a b show "\<exists>min_start.
         (\<exists>w \<in> set df_plot. Start w = Some min_start) \<and>
         (\<forall>w \<in> set df_plot. \<forall>s. Start w = Some s \<longrightarrow> instant min_start \<le> instant s) \<and>
         (\<forall>w \<in> set df_plot. \<exists>s f.
            Start w = Some s \<and> Finish w = Some f \<and>
            StartWeek w = Some (spec_week_of min_start s) \<and>
            FinishWeek w = Some (if spec_week_of min_start f = spec_week_of min_start s
                                 then spec_week_of min_start s + 1 else spec_week_of min_start f))"
    by blast
next
  show "\<exists>w. generate_gantt_chart fromisoformat now_clock [task_a] False = Chart [w] [w] \<and>
        StartWeek w = Some 1 \<and> FinishWeek w = Some 2"
    by (rule task_a_weeks)
qed

theorem week_index_witness:
  "\<exists>df df_plot.
     generate_gantt_chart fromisoformat 0
       [work_package 1 (JStr ''2024-01-01'') (JStr ''2024-01-10'') ''Open'',
        work_package 2 (JStr ''2024-01-20'') (JStr ''2024-02-05'') ''Open''] False = Chart df df_plot \<and>
     map (\<lambda>w. (StartWeek w, FinishWeek w)) df_plot = [(Some 1, Some 2), (Some 3, Some 6)]"
proof -
  let ?g = "generate_gantt_chart fromisoformat 0
       [work_package 1 (JStr ''2024-01-01'') (JStr ''2024-01-10'') ''Open'',
        work_package 2 (JStr ''2024-01-20'') (JStr ''2024-02-05'') ''Open''] False"
  let ?a = "Naive 63839664000000000" and ?b = "Naive 63840441600000000"
  let ?c = "Naive 63841305600000000" and ?d = "Naive 63842688000000000"
  have v: "(case ?g of
      Chart df df_plot \<Rightarrow> map (\<lambda>w. (Start w, Finish w)) df_plot = [(Some ?a, Some ?b), (Some ?c, Some ?d)]
    | _ \<Rightarrow> False)"
    by code_simp
  then obtain df df_plot where g: "?g = Chart df df_plot"
    and d: "map (\<lambda>w. (Start w, Finish w)) df_plot = [(Some ?a, Some ?b), (Some ?c, Some ?d)]"
    by (cases ?g) auto
  from d obtain w1 w2 where w: "df_plot = [w1, w2]"
    "Start w1 = Some ?a" "Finish w1 = Some ?b" "Start w2 = Some ?c" "Finish w2 = Some ?d"
    by auto
  from week_index [of fromisoformat 0 _ False df df_plot] g obtain m where
    mem: "\<exists>w \<in> set df_plot. Start w = Some m" and
    least: "\<forall>w \<in> set df_plot. \<forall>s. Start w = Some s \<longrightarrow> instant m \<le> instant s" and
    wk: "\<forall>w \<in> set df_plot. \<exists>s f.
            Start w = Some s \<and> Finish w = Some f \<and>
            StartWeek w = Some (spec_week_of m s) \<and>
            FinishWeek w = Some (if spec_week_of m f = spec_week_of m s
                                 then spec_week_of m s + 1 else spec_week_of m f)"
    by blast
  from mem w have "m = ?a \<or> m = ?c" by auto
  moreover from least w have "instant m \<le> instant ?a" by simp
  ultimately have m: "m = ?a" by auto
  from wk w have "StartWeek w1 = Some (spec_week_of m ?a)"
    "FinishWeek w1 = Some (if spec_week_of m ?b = spec_week_of m ?a then spec_week_of m ?a + 1 else spec_week_of m ?b)"
    "StartWeek w2 = Some (spec_week_of m ?c)"
    "FinishWeek w2 = Some (if spec_week_of m ?d = spec_week_of m ?c then spec_week_of m ?c + 1 else spec_week_of m ?d)"
    by auto
  then have r: "map (\<lambda>w. (StartWeek w, FinishWeek w)) df_plot = [(Some 1, Some 2), (Some 3, Some 6)]"
    by (simp add: w m spec_week_of_def day_us_def)
  show ?thesis
    by (rule exI [of _ df], rule exI [of _ df_plot]) (simp add: g r)
qed

subsection \<open>Order of the rows\<close>

lemma key_le:
  assumes "row_key x \<le> row_key y" "MissingStart x = (Start x = None)" "MissingStart y = (Start y = None)"
  shows "(MissingStart x \<longrightarrow> MissingStart y) \<and>
         (\<forall>a b. Start x = Some a \<and> Start y = Some b \<longrightarrow> instant a \<le> instant b)"
  using assms
  by (auto simp: row_key_def start_key_def less_eq_prod_def less_prod_def split: option.splits)

text \<open>
  C7 (amended). The frame is sorted, stably, on the resolved start: \<^verbatim>\<open>MissingStart\<close>
  says that the start is unknown after defaulting, that is that the item has neither a
  usable start nor a usable due date. Rows with no resolved start come after all rows
  that have one; rows with a resolved start are in ascending order of it, a start
  inferred from the due date counting like an explicit one; rows with equal keys keep the
  order of the input; and the bars are the rows with a resolved start, in that order.
\<close>

theorem rows_sorted_by_resolved_start:
  assumes "generate_gantt_chart fromiso clock wps epic = Chart df df_plot"
  shows "(\<forall>w \<in> set df. MissingStart w = (Start w = None)) \<and>
         df_plot = filter (\<lambda>w. \<not> MissingStart w) df \<and>
         (\<forall>i j. i < j \<and> j < length df \<longrightarrow>
            (MissingStart (df ! i) \<longrightarrow> MissingStart (df ! j)) \<and>
            (\<forall>a b. Start (df ! i) = Some a \<and> Start (df ! j) = Some b \<longrightarrow> instant a \<le> instant b)) \<and>
         (\<exists>rows. extract_work_package_data fromiso clock wps = Inr rows \<and>
            (\<forall>k. map row.truncate (filter (\<lambda>w. row_key w = k) df) =
                 filter (\<lambda>r. row_key r = k) (if epic then filter is_epic rows else rows)))"
proof -
  from chart_frame [OF assms] obtain rows m where
    ex: "extract_work_package_data fromiso clock wps = Inr rows" and
    tr: "map row.truncate df = sort_key row_key (if epic then filter is_epic rows else rows)"
    by blast
  from chart_rows [OF assms] obtain m where
    row: "\<forall>w \<in> set df.
       (Start w = None) = (Finish w = None) \<and>
       MissingStart w = (Start w = None) \<and>
       plotted w = (Start w \<noteq> None) \<and>
       StartWeek w = map_option (spec_week_of m) (Start w) \<and>
       FinishWeek w = (case (Start w, Finish w) of
                         (Some s, Some f) \<Rightarrow>
                           Some (if spec_week_of m f = spec_week_of m s then spec_week_of m s + 1 else spec_week_of m f)
                       | _ \<Rightarrow> None)" and
    pl: "df_plot = filter plotted df"
    by blast
  have ms: "\<forall>w \<in> set df. MissingStart w = (Start w = None)"
    using row by blast
  have "filter plotted df = filter (\<lambda>w. \<not> MissingStart w) df"
    by (rule filter_cong) (use row in auto)
  with pl have p: "df_plot = filter (\<lambda>w. \<not> MissingStart w) df" by simp
  have keys: "map row_key df = map row_key (map row.truncate df)"
    by (simp add: row_key_truncate)
  have srt: "sorted (map row_key df)"
    unfolding keys tr by (rule sorted_sort_key)
  have idx: "(MissingStart (df ! i) \<longrightarrow> MissingStart (df ! j)) \<and>
            (\<forall>a b. Start (df ! i) = Some a \<and> Start (df ! j) = Some b \<longrightarrow> instant a \<le> instant b)"
    if ij: "i < j \<and> j < length df" for i j
  proof -
    from srt ij have "map row_key df ! i \<le> map row_key df ! j"
      by (intro sorted_nth_mono) simp_all
    with ij have le: "row_key (df ! i) \<le> row_key (df ! j)" by simp
    from ij ms have "MissingStart (df ! i) = (Start (df ! i) = None)"
      "MissingStart (df ! j) = (Start (df ! j) = None)"
      by simp_all
    with le show ?thesis by (rule key_le)
  qed
  have stable: "map row.truncate (filter (\<lambda>w. row_key w = k) df) =
                 filter (\<lambda>r. row_key r = k) (if epic then filter is_epic rows else rows)" for k
  proof -
    have "map row.truncate (filter (\<lambda>w. row_key w = k) df) =
          filter (\<lambda>r. row_key r = k) (map row.truncate df)"
      by (simp add: filter_map o_def row_key_truncate)
    also have "\<dots> = filter (\<lambda>r. row_key r = k) (if epic then filter is_epic rows else rows)"
      unfolding tr by (rule sort_key_stable)
    finally show ?thesis .
  qed
  from ms p idx ex stable show ?thesis by blast
qed

theorem rows_sorted_by_resolved_start_witness:
  "\<exists>df df_plot.
     generate_gantt_chart fromisoformat 0
           [work_package 3 JNull JNull ''Open'',
            work_package 2 (JStr ''2024-03-01'') JNull ''Open'',
            work_package 1 (JStr ''2024-02-01'') JNull ''Open''] False = Chart df df_plot \<and>
     map wp_id df = [JInt 1, JInt 2, JInt 3] \<and> map wp_id df_plot = [JInt 1, JInt 2] \<and>
     df_plot = filter (\<lambda>w. \<not> MissingStart w) df"
proof -
  let ?g = "generate_gantt_chart fromisoformat 0
           [work_package 3 JNull JNull ''Open'',
            work_package 2 (JStr ''2024-03-01'') JNull ''Open'',
            work_package 1 (JStr ''2024-02-01'') JNull ''Open''] False"
  have v: "(case ?g of
      Chart df df_plot \<Rightarrow> map wp_id df = [JInt 1, JInt 2, JInt 3] \<and> map wp_id df_plot = [JInt 1, JInt 2]
    | _ \<Rightarrow> False)"
    by code_simp
  then obtain df df_plot where g: "?g = Chart df df_plot"
    and d: "map wp_id df = [JInt 1, JInt 2, JInt 3]" "map wp_id df_plot = [JInt 1, JInt 2]"
    by (cases ?g) auto
  from rows_sorted_by_resolved_start [OF g]
  have f: "df_plot = filter (\<lambda>w. \<not> MissingStart w) df" by blast
  show ?thesis
    by (rule exI [of _ df], rule exI [of _ df_plot]) (intro conjI g d f)
qed

text \<open>
  C7 as stated fails: item 3 has no explicit start, only the due date 2024-01-10, so its
  start is inferred as 2024-01-09 and it is placed before items 1 and 2, which start
  explicitly on 2024-02-01 and 2024-03-01.
\<close>

theorem inferred_start_sorts_first_counterexample:
  "dict_get (work_package 3 JNull (JStr ''2024-01-10'') ''Open'') ''startDate'' JNull = JNull \<and>
   (case generate_gantt_chart fromisoformat 0
           [work_package 1 (JStr ''2024-02-01'') JNull ''Open'',
            work_package 2 (JStr ''2024-03-01'') JNull ''Open'',
            work_package 3 JNull (JStr ''2024-01-10'') ''Open''] False of
      Chart df df_plot \<Rightarrow> map wp_id df_plot
    | _ \<Rightarrow> []) = [JInt 3, JInt 1, JInt 2]"
  by code_simp

subsection \<open>Items that cannot raise\<close>




















end
